theory Spec2Isabelle
  imports Main "HOL-Library.AList"
begin

section \<open>Values of the document tree\<close>

text \<open>
  The package \<open>sls\<close> of \<open>sls.go\<close> works on what the YAML decoder hands it: a
  \<open>map[string]interface{}\<close> at the top, and below it \<open>interface{}\<close> values whose
  dynamic kind is a string, a slice \<open>[]interface{}\<close>, a map
  \<open>map[interface{}]interface{}\<close>, \<open>nil\<close>, or another scalar kind (integer, boolean).
  A Go map is ranged over in an order the runtime picks; a map is therefore an association
  list whose order is the order of that one iteration, and a statement about every list
  is a statement about every iteration order. Map keys are never inspected below the top
  level; they are strings here.

  A Go \<open>error\<close> built by \<open>fmt.Errorf\<close> is its message; a result pair
  \<open>(x, err)\<close> is a pair with an optional error.
\<close>

type_synonym error = string

datatype val =
    VNil
  | VStr string
  | VInt int
  | VBool bool
  | VSlice "val list"
  | VMap "(string \<times> val) list"

type_synonym doc = "(string \<times> val) list"

text \<open>A call either returns its pair or panics (a nil dereference, a failed type assertion).\<close>

datatype 'a go = Panic | Ret 'a "error option"

section \<open>The collaborators outside the package\<close>

text \<open>
  The key backend \<open>pki.Pki\<close>, the YAML encoder and decoder and the operating system are
  not part of \<open>sls.go\<close>; they are the fields of an environment. \<open>KeyUsedForEncryptedFile\<close>
  reads the temporary file \<open>keyInfo\<close> wrote, so it is given that file's content; the four
  \<open>tmp\<close> fields are what the temporary-file calls of \<open>keyInfo\<close> return for that content.
  \<open>Unmarshal\<close> is \<open>yamlv2.Unmarshal(buf, &s.Yaml.Values)\<close>: from the bytes and the map
  it decodes into, the map afterwards and the error.
\<close>

record env =
  EncryptSecret :: "string \<Rightarrow> string \<times> error option"
  DecryptSecret :: "string \<Rightarrow> string \<times> error option"
  KeyUsedForEncryptedFile :: "string \<Rightarrow> string \<times> error option"
  tmpTempFile :: "string \<Rightarrow> error option"
  tmpWrite :: "string \<Rightarrow> error option"
  tmpClose :: "string \<Rightarrow> error option"
  tmpRemove :: "string \<Rightarrow> error option"
  Marshal :: "doc \<Rightarrow> string \<times> error option"
  Unmarshal :: "string \<Rightarrow> doc \<Rightarrow> doc \<times> error option"
  Getwd :: "string \<times> error option"

section \<open>Strings\<close>

fun HasPrefix :: "string \<Rightarrow> string \<Rightarrow> bool" where
  "HasPrefix s [] = True"
| "HasPrefix [] (p # ps) = False"
| "HasPrefix (c # s) (p # ps) = (c = p \<and> HasPrefix s ps)"

text \<open>\<open>strings.Contains(s, substr)\<close>: \<open>substr\<close> occurs somewhere in \<open>s\<close>.\<close>

fun Contains :: "string \<Rightarrow> string \<Rightarrow> bool" where
  "Contains [] substr = (substr = [])"
| "Contains (c # s) substr = (HasPrefix (c # s) substr \<or> Contains s substr)"

text \<open>\<open>strings.Split(s, sep)\<close> for a separator of one byte.\<close>

fun Split :: "string \<Rightarrow> char \<Rightarrow> string list" where
  "Split [] sep = [[]]"
| "Split (c # s) sep =
     (if c = sep then [] # Split s sep
      else (case Split s sep of [] \<Rightarrow> [[c]] | w # ws \<Rightarrow> (c # w) # ws))"

section \<open>Constants of the package\<close>

definition pgpHeader :: string where
  "pgpHeader = ''-----BEGIN PGP MESSAGE-----''"

definition Encrypt :: string where "Encrypt = ''encrypt''"
definition Decrypt :: string where "Decrypt = ''decrypt''"
definition Validate :: string where "Validate = ''validate''"
definition Rotate :: string where "Rotate = ''rotate''"

definition validAction :: "string \<Rightarrow> bool" where
  "validAction action =
     (action = Encrypt \<or> action = Decrypt \<or> action = Validate \<or> action = Rotate)"

section \<open>The action strategies on one scalar\<close>

definition isEncrypted :: "string \<Rightarrow> bool" where
  "isEncrypted str = Contains str pgpHeader"

definition decryptVal :: "env \<Rightarrow> string \<Rightarrow> string \<times> error option" where
  "decryptVal e strVal =
     (if isEncrypted strVal then
        (case DecryptSecret e strVal of
           (plainText, Some err) \<Rightarrow> (strVal, Some (''error decrypting value: '' @ err))
         | (plainText, None) \<Rightarrow> (plainText, None))
      else (strVal, None))"

definition rotateVal :: "env \<Rightarrow> string \<Rightarrow> string \<times> error option" where
  "rotateVal e strVal =
     (case decryptVal e strVal of
        (strVal', Some err) \<Rightarrow> (strVal', Some err)
      | (strVal', None) \<Rightarrow> EncryptSecret e strVal')"

definition keyInfo :: "env \<Rightarrow> string \<Rightarrow> string \<times> error option" where
  "keyInfo e val =
     (if \<not> isEncrypted val then (val, Some ''value is not encrypted'')
      else (case tmpTempFile e val of
        Some err \<Rightarrow> (val, Some (''keyInfo: '' @ err))
      | None \<Rightarrow> (case tmpWrite e val of
        Some err \<Rightarrow> (val, Some (''keyInfo: '' @ err))
      | None \<Rightarrow> (case KeyUsedForEncryptedFile e val of
        (info, Some err) \<Rightarrow> (val, Some (''keyInfo: '' @ err))
      | (info, None) \<Rightarrow> (case tmpClose e val of
        Some err \<Rightarrow> (val, Some (''keyInfo: '' @ err))
      | None \<Rightarrow> (case tmpRemove e val of
        Some err \<Rightarrow> (val, Some (''keyInfo: '' @ err))
      | None \<Rightarrow> (info, None)))))))"

text \<open>
  \<open>doString\<close>: the \<open>switch\<close> on the action. Every failing case returns the original
  string with the error; an action outside the four falls through the \<open>switch\<close>.
\<close>

definition doString :: "env \<Rightarrow> string \<Rightarrow> string \<Rightarrow> string \<times> error option" where
  "doString e val action =
     (if action = Decrypt then
        (case decryptVal e val of
           (strVal, Some err) \<Rightarrow> (val, Some err)
         | (strVal, None) \<Rightarrow> (strVal, None))
      else if action = Encrypt then
        (if \<not> isEncrypted val then
           (case EncryptSecret e val of
              (strVal, Some err) \<Rightarrow> (val, Some err)
            | (strVal, None) \<Rightarrow> (strVal, None))
         else (val, None))
      else if action = Validate then
        (case keyInfo e val of
           (strVal, Some err) \<Rightarrow> (val, Some err)
         | (strVal, None) \<Rightarrow> (strVal, None))
      else if action = Rotate then
        (case rotateVal e val of
           (strVal, Some err) \<Rightarrow> (val, Some err)
         | (strVal, None) \<Rightarrow> (strVal, None))
      else (val, None))"

section \<open>The dispatcher\<close>

text \<open>
  \<open>doSlice\<close> and \<open>doMap\<close> are loops that call each other on the children. The two
  loops are defined together; \<open>things\<close> and \<open>ret\<close> are the accumulators of the source,
  \<open>vals\<close> the slice \<open>doSlice\<close> was called with (returned as it is on an error), and
  \<open>err\<close> the variable \<open>doMap\<close> assigns in every iteration and returns at the end.
  A call \<open>s.doSlice(item, action)\<close> on a slice is the loop started with no \<open>things\<close>, a call
  \<open>s.doMap(m, action)\<close> the loop started with an empty \<open>ret\<close> and a nil \<open>err\<close>.

  In \<open>doSlice\<close>, \<open>reflect.TypeOf(item).Kind()\<close> dereferences a nil \<open>Type\<close> for a nil item:
  a panic. An item of a kind outside the three cases is not appended. In \<open>doMap\<close> a nil
  value returns what has been built so far, and a value of another kind assigns nothing.
\<close>

fun doSliceLoop :: "env \<Rightarrow> val \<Rightarrow> string \<Rightarrow> val list \<Rightarrow> val list \<Rightarrow> val go"
and doMapLoop :: "env \<Rightarrow> string \<Rightarrow> doc \<Rightarrow> error option \<Rightarrow> doc \<Rightarrow> doc go"
where
  "doSliceLoop e vals action things [] = Ret (VSlice things) None"
| "doSliceLoop e vals action things (item # rest) =
     (case item of
        VNil \<Rightarrow> Panic
      | VSlice xs \<Rightarrow>
          (case doSliceLoop e (VSlice xs) action [] xs of
             Panic \<Rightarrow> Panic
           | Ret sliceStuff (Some err) \<Rightarrow> Ret vals (Some err)
           | Ret sliceStuff None \<Rightarrow> doSliceLoop e vals action (things @ [sliceStuff]) rest)
      | VMap m \<Rightarrow>
          (case doMapLoop e action [] None m of
             Panic \<Rightarrow> Panic
           | Ret mapStuff (Some err) \<Rightarrow> Ret vals (Some err)
           | Ret mapStuff None \<Rightarrow> doSliceLoop e vals action (things @ [VMap mapStuff]) rest)
      | VStr x \<Rightarrow>
          (case doString e x action of
             (thing, Some err) \<Rightarrow> Ret vals (Some err)
           | (thing, None) \<Rightarrow> doSliceLoop e vals action (things @ [VStr thing]) rest)
      | VInt i \<Rightarrow> doSliceLoop e vals action things rest
      | VBool b \<Rightarrow> doSliceLoop e vals action things rest)"
| "doMapLoop e action ret err [] = Ret ret err"
| "doMapLoop e action ret err ((key, v) # rest) =
     (case v of
        VNil \<Rightarrow> Ret ret err
      | VSlice xs \<Rightarrow>
          (case doSliceLoop e (VSlice xs) action [] xs of
             Panic \<Rightarrow> Panic
           | Ret r err' \<Rightarrow> doMapLoop e action (AList.update key r ret) err' rest)
      | VMap m \<Rightarrow>
          (case doMapLoop e action [] None m of
             Panic \<Rightarrow> Panic
           | Ret r err' \<Rightarrow> doMapLoop e action (AList.update key (VMap r) ret) err' rest)
      | VStr x \<Rightarrow>
          (case doString e x action of
             (r, err') \<Rightarrow> doMapLoop e action (AList.update key (VStr r) ret) err' rest)
      | VInt i \<Rightarrow> doMapLoop e action ret err rest
      | VBool b \<Rightarrow> doMapLoop e action ret err rest)"

text \<open>
  \<open>doSlice\<close> takes an \<open>interface{}\<close>: nil gives the nil \<open>things\<close>, a slice runs the loop,
  and the assertion \<open>vals.([]interface{})\<close> panics on anything else.
\<close>

definition doSlice :: "env \<Rightarrow> val \<Rightarrow> string \<Rightarrow> val go" where
  "doSlice e vals action =
     (case vals of
        VNil \<Rightarrow> Ret (VSlice []) None
      | VSlice items \<Rightarrow> doSliceLoop e vals action [] items
      | VStr x \<Rightarrow> Panic
      | VInt i \<Rightarrow> Panic
      | VBool b \<Rightarrow> Panic
      | VMap m \<Rightarrow> Panic)"

definition doMap :: "env \<Rightarrow> doc \<Rightarrow> string \<Rightarrow> doc go" where
  "doMap e vals action = doMapLoop e action [] None vals"

definition ProcessValues :: "env \<Rightarrow> val \<Rightarrow> string \<Rightarrow> val go" where
  "ProcessValues e vals action =
     (case vals of
        VNil \<Rightarrow> Ret VNil None
      | VSlice items \<Rightarrow> doSlice e vals action
      | VMap m \<Rightarrow>
          (case doMap e m action of Panic \<Rightarrow> Panic | Ret r err \<Rightarrow> Ret (VMap r) err)
      | VStr x \<Rightarrow> (case doString e x action of (r, err) \<Rightarrow> Ret (VStr r) err)
      | VInt i \<Rightarrow> Ret VNil None
      | VBool b \<Rightarrow> Ret VNil None)"

section \<open>The Sls object and paths\<close>

text \<open>
  The fields of \<open>Sls\<close>; \<open>Values\<close> is \<open>s.Yaml.Values\<close>, and \<open>s.Pki\<close> is in the environment.
\<close>

record Sls =
  FilePath :: string
  Values :: doc
  IsInclude :: bool
  EncryptionPath :: string
  KeyMap :: doc
  Error :: "error option"

text \<open>
  Modelled from the spec: \<open>Yaml.Get\<close> of the YAML library \<open>github.com/esilva-everbridge/yaml\<close>,
  which is not among the sources. The spec (4.2): it walks the path parts as successive
  mapping-key lookups and returns nil if a key on the way is missing or holds no mapping.
\<close>

fun Get :: "doc \<Rightarrow> string list \<Rightarrow> val" where
  "Get m [] = VMap m"
| "Get m [k] = (case map_of m k of None \<Rightarrow> VNil | Some v \<Rightarrow> v)"
| "Get m (k # k' # ks) =
     (case map_of m k of
        Some (VMap m') \<Rightarrow> Get m' (k' # ks)
      | Some (VStr x) \<Rightarrow> VNil
      | Some (VInt i) \<Rightarrow> VNil
      | Some (VBool b) \<Rightarrow> VNil
      | Some (VSlice xs) \<Rightarrow> VNil
      | Some VNil \<Rightarrow> VNil
      | None \<Rightarrow> VNil)"

definition GetValueFromPath :: "Sls \<Rightarrow> string \<Rightarrow> val" where
  "GetValueFromPath s path = Get (Values s) (Split path CHR '':'')"

definition FormatBuffer :: "env \<Rightarrow> Sls \<Rightarrow> string \<Rightarrow> string \<times> error option" where
  "FormatBuffer e s action =
     (let data = (if action \<noteq> Validate then Values s else KeyMap s) in
      if length data = 0 then ([], Some (FilePath s @ '' has no values to format''))
      else (case Marshal e data of
              (out, Some err) \<Rightarrow> ([], Some (FilePath s @ '' format error: '' @ err))
            | (out, None) \<Rightarrow>
                ((if action \<noteq> Validate then [CHR ''#'', CHR ''!''] @ ''yaml|gpg'' @ [CHR 0x0A, CHR 0x0A]
                  else []) @ out, None)))"

text \<open>
  The loop of \<open>PerformAction\<close> over the keys of \<open>s.Yaml.Values\<close>, with \<open>stuff\<close> the map it
  fills. It stops at the first error.
\<close>

fun PerformActionLoop :: "env \<Rightarrow> Sls \<Rightarrow> string \<Rightarrow> doc \<Rightarrow> string list \<Rightarrow> doc go" where
  "PerformActionLoop e s action stuff [] = Ret stuff None"
| "PerformActionLoop e s action stuff (key # rest) =
     (if EncryptionPath s \<noteq> [] then
        (if EncryptionPath s = key then
           (case ProcessValues e (GetValueFromPath s key) action of
              Panic \<Rightarrow> Panic
            | Ret r (Some err) \<Rightarrow> Ret (AList.update key r stuff) (Some err)
            | Ret r None \<Rightarrow> PerformActionLoop e s action (AList.update key r stuff) rest)
         else PerformActionLoop e s action (AList.update key (GetValueFromPath s key) stuff) rest)
      else
        (case ProcessValues e (GetValueFromPath s key) action of
           Panic \<Rightarrow> Panic
         | Ret r (Some err) \<Rightarrow> Ret (AList.update key r stuff) (Some err)
         | Ret r None \<Rightarrow> PerformActionLoop e s action (AList.update key r stuff) rest))"

text \<open>
  \<open>PerformAction\<close> returns the buffer and the error, and leaves the object changed: the
  result is the object afterwards with the buffer.
\<close>

definition PerformAction :: "env \<Rightarrow> Sls \<Rightarrow> string \<Rightarrow> (Sls \<times> string) go" where
  "PerformAction e s action =
     (if validAction action then
        (case PerformActionLoop e s action [] (map fst (Values s)) of
           Panic \<Rightarrow> Panic
         | Ret stuff (Some err) \<Rightarrow> Ret (s, []) (Some err)
         | Ret stuff None \<Rightarrow>
             (let s' = (if action \<noteq> Validate then s\<lparr>Values := stuff\<rparr> else s\<lparr>KeyMap := stuff\<rparr>)
              in (case FormatBuffer e s' action of (buf, err) \<Rightarrow> Ret (s', buf) err)))
      else (case FormatBuffer e s action of (buf, err) \<Rightarrow> Ret (s, buf) err))"

section \<open>Reading a document\<close>

text \<open>
  \<open>bufio.Scanner\<close> with its default split function: the input is cut at every newline,
  an empty piece after the last newline is no line, and one trailing carriage return is
  dropped from a line. A line that does not fit the scanner's buffer of
  \<open>bufio.MaxScanTokenSize\<close> bytes ends the scan with \<open>bufio.ErrTooLong\<close>.
\<close>

definition MaxScanTokenSize :: nat where
  "MaxScanTokenSize = 64 * 1024"

definition rawLines :: "string \<Rightarrow> string list" where
  "rawLines buf =
     (case rev (Split buf (CHR 0x0A)) of
        [] \<Rightarrow> []
      | l # ls \<Rightarrow> (if l = [] then rev ls else rev (l # ls)))"

definition dropCR :: "string \<Rightarrow> string" where
  "dropCR l =
     (case rev l of
        [] \<Rightarrow> []
      | c # cs \<Rightarrow> (if c = CHR 0x0D then rev cs else l))"

text \<open>\<open>strings.Replace(s, old, new, 1)\<close> for a non-empty \<open>old\<close>.\<close>

fun Replace1 :: "string \<Rightarrow> string \<Rightarrow> string \<Rightarrow> string" where
  "Replace1 [] old new = []"
| "Replace1 (c # s) old new =
     (if HasPrefix (c # s) old then new @ drop (length old) (c # s)
      else c # Replace1 s old new)"

definition shortFileName :: "env \<Rightarrow> string \<Rightarrow> string" where
  "shortFileName e file =
     (case Getwd e of
        (pwd, Some err) \<Rightarrow> file
      | (pwd, None) \<Rightarrow> Replace1 file (pwd @ ''/'') [])"

fun scanLoop :: "env \<Rightarrow> Sls \<Rightarrow> string list \<Rightarrow> error option" where
  "scanLoop e s [] = None"
| "scanLoop e s (l # ls) =
     (if MaxScanTokenSize \<le> length l then Some ''bufio.Scanner: token too long''
      else if Contains (dropCR l) ''include:''
        then Some (shortFileName e (FilePath s) @ '' contains include directives'')
      else scanLoop e s ls)"

definition ScanForIncludes :: "env \<Rightarrow> Sls \<Rightarrow> string \<Rightarrow> error option" where
  "ScanForIncludes e s reader = scanLoop e s (rawLines reader)"

text \<open>
  \<open>ReadBytes\<close>: a fresh \<open>yaml.New()\<close>, the scan, whose error sets \<open>IsInclude\<close> and is
  logged, and then the decoder, whose error is the one returned.
\<close>

definition ReadBytes :: "env \<Rightarrow> Sls \<Rightarrow> string \<Rightarrow> Sls \<times> error option" where
  "ReadBytes e s buf =
     (let s1 = s\<lparr>Values := []\<rparr>;
          s2 = (case ScanForIncludes e s1 buf of
                  Some err \<Rightarrow> s1\<lparr>IsInclude := True\<rparr>
                | None \<Rightarrow> s1)
      in (case Unmarshal e buf (Values s2) of
            (vals, err) \<Rightarrow> (s2\<lparr>Values := vals\<rparr>, err)))"

section \<open>The file system\<close>

text \<open>
  The files with their bytes and the directories, each under its name: the absolute path
  the kernel reaches from a path string, \<open>/\<close> for the root and \<open>/a/b\<close> below it.
  \<open>os_resolve\<close> is that resolution (from the working directory, for a relative path);
  \<open>filepath.Abs\<close> and \<open>filepath.Dir\<close> are the functions of the standard library on path
  strings. \<open>atomicWrite\<close> is handed the absolute path \<open>WriteSlsFile\<close> computed and names
  its temporary file by an absolute path, so it uses its paths as names.

  Every call of the operating system can fail for reasons the files and directories do not
  show (permissions, a full or read-only disk): \<open>oscalls\<close> holds, for each call the
  package makes, the error it returns then (\<open>None\<close>: it does what it is documented to do
  on the state), and the path \<open>ioutil.TempFile\<close> picks for a pattern.
  A failing \<open>Write\<close> or \<open>io.Copy\<close> has moved some of the bytes.
\<close>

record fsys =
  files :: "string \<Rightarrow> string option"
  dirs :: "string set"

record oscalls =
  os_TempFile_name :: "string \<Rightarrow> string"
  os_TempFile :: "error option"
  os_Write :: "(nat \<times> error) option"
  os_Sync :: "error option"
  os_Close :: "error option"
  os_Chmod :: "error option"
  os_Stat :: "error option"
  os_Open :: "error option"
  os_Create :: "error option"
  os_Copy :: "(nat \<times> error option) option"
  os_CloseSrc :: "error option"
  os_CloseDst :: "error option"
  os_Remove :: "error option"
  os_MkdirAll :: "error option"
  os_OpenFile :: "error option"
  os_ReadFile :: "error option"
  os_Abs :: "string \<Rightarrow> string \<times> error option"
  os_Dir :: "string \<Rightarrow> string"
  os_resolve :: "string \<Rightarrow> string"

definition Stdout_Name :: string where
  "Stdout_Name = ''/dev/stdout''"

definition writeFile :: "fsys \<Rightarrow> string \<Rightarrow> string \<Rightarrow> fsys" where
  "writeFile fs p bytes = fs\<lparr>files := (files fs)(p := Some bytes)\<rparr>"

definition removeFile :: "fsys \<Rightarrow> string \<Rightarrow> fsys" where
  "removeFile fs p = fs\<lparr>files := (files fs)(p := None)\<rparr>"

fun showNat :: "nat \<Rightarrow> string" where
  "showNat n =
     (if n < 10 then [char_of (48 + n)]
      else showNat (n div 10) @ [char_of (48 + n mod 10)])"

text \<open>
  The names above a name. \<open>components\<close> are the pieces of a name between its slashes,
  \<open>nameOf\<close> puts them together again, \<open>parentOf\<close> is the directory that holds a name,
  and \<open>selfAndAbove\<close> lists a name with every directory above it up to the root.
\<close>

definition components :: "string \<Rightarrow> string list" where
  "components q = filter (\<lambda>c. c \<noteq> []) (Split q CHR ''/'')"

definition nameOf :: "string list \<Rightarrow> string" where
  "nameOf cs = (if cs = [] then ''/'' else concat (map (\<lambda>c. CHR ''/'' # c) cs))"

definition parentOf :: "string \<Rightarrow> string" where
  "parentOf q = nameOf (butlast (components q))"

definition selfAndAbove :: "string \<Rightarrow> string list" where
  "selfAndAbove q =
     q # map (\<lambda>n. nameOf (take n (components q))) [0..<length (components q)]"

text \<open>The root is always there; any other directory is one of \<open>dirs\<close>.\<close>

definition isDir :: "fsys \<Rightarrow> string \<Rightarrow> bool" where
  "isDir fs q = (components q = [] \<or> q \<in> dirs fs)"

definition isFile :: "fsys \<Rightarrow> string \<Rightarrow> bool" where
  "isFile fs q = (files fs q \<noteq> None)"

text \<open>
  \<open>os.IsNotExist\<close> of the error of \<open>os.Stat(p)\<close>: the call fails with \<open>ENOENT\<close>.
  That is so when nothing has the name, and the name is below directories only: with a
  regular file on the way the error is \<open>ENOTDIR\<close>, which is not \<open>IsNotExist\<close>, as is any
  error the call fails with for another reason.
\<close>

definition statNotExist :: "oscalls \<Rightarrow> fsys \<Rightarrow> string \<Rightarrow> bool" where
  "statNotExist os fs p =
     (let q = os_resolve os p in
      os_Stat os = None \<and> \<not> isFile fs q \<and> \<not> isDir fs q
      \<and> \<not> list_ex (isFile fs) (selfAndAbove (parentOf q)))"

text \<open>
  \<open>os.MkdirAll(d, 0700)\<close> does nothing on a directory that is there. Otherwise it makes
  the directory and every missing directory above it, unless a regular file is on the way
  or the call fails; a failing call is taken to have made nothing.
\<close>

definition makeDirs :: "fsys \<Rightarrow> string \<Rightarrow> fsys" where
  "makeDirs fs q =
     (if isDir fs q then fs else fs\<lparr>dirs := dirs fs \<union> set (selfAndAbove q)\<rparr>)"

definition MkdirAll :: "oscalls \<Rightarrow> fsys \<Rightarrow> string \<Rightarrow> fsys \<times> error option" where
  "MkdirAll os fs d =
     (let q = os_resolve os d in
      if isDir fs q then (fs, None)
      else if list_ex (isFile fs) (selfAndAbove q)
        then (fs, Some (''mkdir '' @ d @ '': not a directory''))
      else (case os_MkdirAll os of
              Some err \<Rightarrow> (fs, Some err)
            | None \<Rightarrow> (makeDirs fs q, None)))"

text \<open>
  \<open>os.OpenFile(p, os.O_RDONLY|os.O_CREATE, 0600)\<close> opens a file that is there, refuses a
  directory, and otherwise makes an empty file, for which the directory that holds it must
  be there.
\<close>

definition OpenFile :: "oscalls \<Rightarrow> fsys \<Rightarrow> string \<Rightarrow> fsys \<times> error option" where
  "OpenFile os fs p =
     (let q = os_resolve os p in
      case os_OpenFile os of
        Some err \<Rightarrow> (fs, Some err)
      | None \<Rightarrow>
          (if isFile fs q then (fs, None)
           else if isDir fs q then (fs, Some (''open '' @ p @ '': is a directory''))
           else if \<not> isDir fs (parentOf q)
             then (fs, Some (''open '' @ p @ '': no such file or directory''))
           else (writeFile fs q [], None)))"

text \<open>
  \<open>ioutil.ReadFile(p)\<close> returns the bytes of a file; a directory cannot be read, and a
  name that nothing has cannot be opened.
\<close>

definition ReadFile :: "oscalls \<Rightarrow> fsys \<Rightarrow> string \<Rightarrow> string \<times> error option" where
  "ReadFile os fs p =
     (let q = os_resolve os p in
      case os_ReadFile os of
        Some err \<Rightarrow> ([], Some err)
      | None \<Rightarrow>
          (case files fs q of
             Some buf \<Rightarrow> (buf, None)
           | None \<Rightarrow>
               (if isDir fs q then ([], Some (''read '' @ p @ '': is a directory''))
                else if list_ex (isFile fs) (selfAndAbove (parentOf q))
                  then ([], Some (''open '' @ p @ '': not a directory''))
                else ([], Some (''open '' @ p @ '': no such file or directory'')))))"

text \<open>
  \<open>ReadSlsFile\<close>: a path that \<open>os.Stat\<close> reports as not existing gets its directory and
  an empty file; then the file is read at its absolute path and handed to \<open>ReadBytes\<close>.
\<close>

definition ReadSlsFile :: "env \<Rightarrow> oscalls \<Rightarrow> fsys \<Rightarrow> Sls \<Rightarrow> (fsys \<times> Sls) \<times> error option" where
  "ReadSlsFile e os fs s =
     (if length (FilePath s) = 0 then ((fs, s), Some ''no file path given'')
      else if FilePath s = Stdout_Name then ((fs, s), None)
      else
        (let created =
               (if statNotExist os fs (FilePath s) then
                  (case MkdirAll os fs (os_Dir os (FilePath s)) of
                     (fs1, Some err) \<Rightarrow> (fs1, Some err)
                   | (fs1, None) \<Rightarrow> OpenFile os fs1 (FilePath s))
                else (fs, None))
         in (case created of
               (fs2, Some err) \<Rightarrow> ((fs2, s), Some err)
             | (fs2, None) \<Rightarrow>
                 (case os_Abs os (FilePath s) of
                    (fullPath, Some err) \<Rightarrow> ((fs2, s), Some err)
                  | (fullPath, None) \<Rightarrow>
                      (case ReadFile os fs2 fullPath of
                         (buf, Some err) \<Rightarrow> ((fs2, s), Some err)
                       | (buf, None) \<Rightarrow>
                           (case ReadBytes e s buf of
                              (s', err) \<Rightarrow> ((fs2, s'), err)))))))"

section \<open>Writing a document\<close>

text \<open>
  \<open>copyFile\<close>: \<open>os.Create\<close> truncates the destination before \<open>io.Copy\<close> fills it from
  the source.
\<close>

definition copyFile :: "oscalls \<Rightarrow> fsys \<Rightarrow> string \<Rightarrow> string \<Rightarrow> fsys \<times> error option" where
  "copyFile os fs src dst =
     (case os_Stat os of
        Some err \<Rightarrow> (fs, Some err)
      | None \<Rightarrow>
     (case files fs src of
        None \<Rightarrow> (fs, Some (''stat '' @ src @ '': no such file or directory''))
      | Some content0 \<Rightarrow>
     (case os_Open os of
        Some err \<Rightarrow> (fs, Some err)
      | None \<Rightarrow>
     (case os_Create os of
        Some err \<Rightarrow> (fs, Some err)
      | None \<Rightarrow>
     (let fs1 = writeFile fs dst [];
          content = (case files fs1 src of None \<Rightarrow> [] | Some c \<Rightarrow> c);
          copied = (case os_Copy os of
                      None \<Rightarrow> (length content, None)
                    | Some (n, err) \<Rightarrow> (min n (length content), err));
          fs2 = writeFile fs1 dst (take (fst copied) content)
      in (case snd copied of
            Some err \<Rightarrow> (fs2, Some err)
          | None \<Rightarrow>
              (if fst copied \<noteq> length content0
               then (fs2, Some (src @ '': '' @ showNat (fst copied) @ ''/''
                                  @ showNat (length content0) @ '' copied''))
               else (case os_CloseSrc os of
                       Some err \<Rightarrow> (fs2, os_CloseDst os)
                     | None \<Rightarrow> (fs2, None)))))))))"

definition path_Split_name :: "string \<Rightarrow> string" where
  "path_Split_name p = (case rev (Split p CHR ''/'') of [] \<Rightarrow> [] | n # ds \<Rightarrow> n)"

definition orElse :: "error option \<Rightarrow> error option \<Rightarrow> error option" where
  "orElse err next = (case err of None \<Rightarrow> next | Some x \<Rightarrow> Some x)"

text \<open>
  \<open>atomicWrite\<close>: the buffer goes to a temporary file, which is synced, closed, given
  mode 0600 and copied over the destination; each of these steps keeps the first error.
  After an error of any step the function returns; otherwise the temporary file is removed.
\<close>

definition atomicWrite :: "oscalls \<Rightarrow> fsys \<Rightarrow> string \<Rightarrow> string \<Rightarrow> fsys \<times> nat \<times> error option" where
  "atomicWrite os fs fullPath buffer =
     (case os_TempFile os of
        Some err \<Rightarrow> (fs, 0, Some err)
      | None \<Rightarrow>
     (let f = os_TempFile_name os (''gsp-'' @ path_Split_name fullPath);
          fs1 = writeFile fs f [];
          written = (case os_Write os of
                       None \<Rightarrow> (length buffer, None)
                     | Some (n, err) \<Rightarrow> (min n (length buffer), Some err));
          byteCount = fst written;
          fs2 = writeFile fs1 f (take byteCount buffer);
          err1 = orElse (snd written) (os_Sync os);
          err2 = orElse err1 (os_Close os);
          err3 = orElse err2 (os_Chmod os);
          copied = (case err3 of
                      None \<Rightarrow> copyFile os fs2 f fullPath
                    | Some x \<Rightarrow> (fs2, Some x))
      in (case snd copied of
            Some err \<Rightarrow> (fst copied, byteCount, Some err)
          | None \<Rightarrow>
              (case files (fst copied) f of
                 None \<Rightarrow> (fst copied, byteCount, None)
               | Some c \<Rightarrow>
                   (case os_Remove os of
                      Some err \<Rightarrow> (fst copied, byteCount, Some err)
                    | None \<Rightarrow> (removeFile (fst copied) f, byteCount, None))))))"

section \<open>A sample environment\<close>

text \<open>
  A backend for the concrete runs below: the ciphertext of a plaintext is the armour
  header followed by the plaintext, decryption takes the header off and fails on the one
  ciphertext \<open>pgpHeader @ ''bad''\<close>, and every ciphertext was made with \<open>key-1\<close>. The
  encoder and the decoder do not matter in these runs.
\<close>

definition sampleEnv :: env where
  "sampleEnv =
     \<lparr>EncryptSecret = (\<lambda>p. (pgpHeader @ p, None)),
      DecryptSecret = (\<lambda>c. if c = pgpHeader @ ''bad'' then ([], Some ''corrupt'')
                            else (drop (length pgpHeader) c, None)),
      KeyUsedForEncryptedFile = (\<lambda>c. (''key-1'', None)),
      tmpTempFile = (\<lambda>c. None), tmpWrite = (\<lambda>c. None),
      tmpClose = (\<lambda>c. None), tmpRemove = (\<lambda>c. None),
      Marshal = (\<lambda>d. (''yaml'', None)),
      Unmarshal = (\<lambda>b d. (d, None)),
      Getwd = (''/srv'', None)\<rparr>"

text \<open>
  \<open>filepath.Dir\<close> on a path without dots or doubled slashes: it drops the last piece.
\<close>

fun joinSlash :: "string list \<Rightarrow> string" where
  "joinSlash [] = []"
| "joinSlash [x] = x"
| "joinSlash (x # y # zs) = x @ ''/'' @ joinSlash (y # zs)"

definition dirOfPath :: "string \<Rightarrow> string" where
  "dirOfPath p =
     (case rev (Split p CHR ''/'') of
        [] \<Rightarrow> ''.''
      | [n] \<Rightarrow> ''.''
      | n # d # ds \<Rightarrow> (if d = [] \<and> ds = [] then ''/'' else joinSlash (rev (d # ds))))"

text \<open>
  The operating system when every call succeeds, seen from the root (an absolute path is
  its own name), and a file system with one pillar file.
\<close>

definition osOK :: oscalls where
  "osOK =
     \<lparr>os_TempFile_name = (\<lambda>pattern. ''/tmp/'' @ pattern @ ''123456''),
      os_TempFile = None, os_Write = None, os_Sync = None, os_Close = None,
      os_Chmod = None, os_Stat = None, os_Open = None, os_Create = None,
      os_Copy = None, os_CloseSrc = None, os_CloseDst = None, os_Remove = None,
      os_MkdirAll = None, os_OpenFile = None, os_ReadFile = None,
      os_Abs = (\<lambda>p. (p, None)), os_Dir = dirOfPath,
      os_resolve = (\<lambda>p. p)\<rparr>"

definition fsOld :: fsys where
  "fsOld =
     \<lparr>files = (\<lambda>p. if p = ''/srv/pillar/a.sls'' then Some ''old secrets'' else None),
      dirs = {''/srv/pillar''}\<rparr>"

text \<open>
  The same seen from the working directory \<open>/srv/pillar\<close>, with the directories above
  it in the file system: the resolution puts the working directory before a relative path,
  and \<open>filepath.Abs\<close> returns the resolved path.
\<close>

definition fsPillar :: fsys where
  "fsPillar =
     \<lparr>files = (\<lambda>p. if p = ''/srv/pillar/a.sls'' then Some ''old secrets'' else None),
      dirs = {''/'', ''/srv'', ''/srv/pillar''}\<rparr>"

definition resolvePillar :: "string \<Rightarrow> string" where
  "resolvePillar p =
     (if HasPrefix p ''/'' then p
      else if p = ''.'' then ''/srv/pillar''
      else ''/srv/pillar/'' @ p)"

definition osPillar :: oscalls where
  "osPillar =
     osOK\<lparr>os_Abs := (\<lambda>p. (resolvePillar p, None)), os_resolve := resolvePillar\<rparr>"

definition slsNew :: Sls where
  "slsNew =
     \<lparr>FilePath = ''env/prod/new.sls'', Values = [], IsInclude = False,
      EncryptionPath = [], KeyMap = [], Error = None\<rparr>"

text \<open>Documents for the concrete runs, as the decoder would hand them over.\<close>

definition slsOf :: "doc \<Rightarrow> string \<Rightarrow> Sls" where
  "slsOf d element =
     \<lparr>FilePath = ''/srv/pillar/a.sls'', Values = d, IsInclude = False,
      EncryptionPath = element, KeyMap = [], Error = None\<rparr>"

definition docTwoSecrets :: Sls where
  "docTwoSecrets =
     slsOf [(''secure_vars'',
             VMap [(''a'', VStr (pgpHeader @ ''bad'')), (''b'', VStr (pgpHeader @ ''ok''))])] []"

definition docNullFirst :: Sls where
  "docNullFirst =
     slsOf [(''secure_vars'', VMap [(''user'', VNil), (''password'', VStr ''hunter2'')])] []"

definition docNullLast :: Sls where
  "docNullLast =
     slsOf [(''secure_vars'', VMap [(''password'', VStr ''hunter2''), (''user'', VNil)])] []"

definition docPlainLeaf :: Sls where
  "docPlainLeaf = slsOf [(''token'', VStr (pgpHeader @ ''ok'')), (''user'', VStr ''admin'')] []"

definition docColonKey :: Sls where
  "docColonKey =
     slsOf [(''url:port'', VStr ''8080''),
            (''secure_vars'', VMap [(''password'', VStr ''hunter2'')])] ''secure_vars''"

definition docScoped :: Sls where
  "docScoped =
     slsOf [(''roles'', VSlice [VStr ''web'']),
            (''secure_vars'', VMap [(''password'', VStr ''hunter2'')])] ''secure_vars''"

definition outScoped :: doc where
  "outScoped =
     [(''roles'', VSlice [VStr ''web'']),
      (''secure_vars'', VMap [(''password'', VStr (pgpHeader @ ''hunter2''))])]"

definition header :: string where
  "header = [CHR ''#'', CHR ''!''] @ ''yaml|gpg'' @ [CHR 0x0A, CHR 0x0A]"

definition includeDoc :: string where
  "includeDoc =
     ''include:'' @ [CHR 0x0A] @ ''  - common'' @ [CHR 0x0A]
     @ ''secure_vars:'' @ [CHR 0x0A] @ ''  password: hunter2'' @ [CHR 0x0A]"

section \<open>Substrings\<close>

lemmas action_defs = Encrypt_def Decrypt_def Validate_def Rotate_def

lemma HasPrefix_iff: "HasPrefix s p \<longleftrightarrow> (\<exists>q. s = p @ q)"
  by (induction s p rule: HasPrefix.induct) auto

lemma Contains_iff: "Contains s sub \<longleftrightarrow> (\<exists>p q. s = p @ sub @ q)"
proof (induction s)
  case Nil
  show ?case by auto
next
  case (Cons c s)
  show ?case
  proof
    assume "Contains (c # s) sub"
    then consider "HasPrefix (c # s) sub" | "Contains s sub" by auto
    then show "\<exists>p q. c # s = p @ sub @ q"
    proof cases
      case 1
      then obtain q where "c # s = sub @ q" by (auto simp: HasPrefix_iff)
      then have "c # s = [] @ sub @ q" by simp
      then show ?thesis by blast
    next
      case 2
      then obtain p q where "s = p @ sub @ q" using Cons.IH by blast
      then have "c # s = (c # p) @ sub @ q" by simp
      then show ?thesis by blast
    qed
  next
    assume "\<exists>p q. c # s = p @ sub @ q"
    then obtain p q where pq: "c # s = p @ sub @ q" by blast
    show "Contains (c # s) sub"
    proof (cases p)
      case Nil
      with pq have "HasPrefix (c # s) sub" by (auto simp: HasPrefix_iff)
      then show ?thesis by simp
    next
      case (Cons a p')
      with pq have "s = p' @ sub @ q" by simp
      then have "Contains s sub" using Cons.IH by blast
      then show ?thesis by simp
    qed
  qed
qed

lemma isEncrypted_iff: "isEncrypted x \<longleftrightarrow> (\<exists>p q. x = p @ pgpHeader @ q)"
  by (simp add: isEncrypted_def Contains_iff)

section \<open>The action strategies\<close>

text \<open>
  C1. Encrypting twice is encrypting once. For a scalar \<open>x\<close> without the marker that the
  backend encrypts to a ciphertext \<open>c\<close> bearing the marker, the encrypt action turns \<open>x\<close>
  into \<open>c\<close>, and applied to \<open>c\<close> it returns \<open>c\<close> with no error whatever the backend
  \<open>e'\<close> would do: the second application does not call it.
\<close>

theorem encrypt_twice_is_encrypt_once:
  assumes "\<not> isEncrypted x" and "EncryptSecret e x = (c, None)" and "isEncrypted c"
  shows "doString e x Encrypt = (c, None)
       \<and> doString e' c Encrypt = (c, None)
       \<and> doString e (fst (doString e x Encrypt)) Encrypt = doString e x Encrypt"
  using assms by (simp add: doString_def action_defs)

theorem encrypt_twice_is_encrypt_once_witness:
  "doString sampleEnv ''hunter2'' Encrypt = (pgpHeader @ ''hunter2'', None)
   \<and> doString sampleEnv (pgpHeader @ ''hunter2'') Encrypt = (pgpHeader @ ''hunter2'', None)"
  using encrypt_twice_is_encrypt_once
          [of "''hunter2''" sampleEnv "pgpHeader @ ''hunter2''" sampleEnv]
  by (simp add: sampleEnv_def isEncrypted_def pgpHeader_def)

text \<open>
  C7. Rotating a plaintext scalar: for a scalar without the marker the decrypt step
  returns it unchanged with no error, so the rotation is the backend's encryption of that
  plaintext, and the rotate action returns the ciphertext when the backend returns one
  (and the original scalar with the backend's error when it does not).
\<close>

theorem rotate_encrypts_plaintext:
  assumes "\<not> isEncrypted x"
  shows "decryptVal e x = (x, None)
       \<and> rotateVal e x = EncryptSecret e x
       \<and> doString e x Rotate =
           (case EncryptSecret e x of (c, Some err) \<Rightarrow> (x, Some err) | (c, None) \<Rightarrow> (c, None))"
  using assms by (simp add: decryptVal_def rotateVal_def doString_def action_defs)

theorem rotate_encrypts_plaintext_witness:
  "decryptVal sampleEnv ''hunter2'' = (''hunter2'', None)
   \<and> doString sampleEnv ''hunter2'' Rotate = (pgpHeader @ ''hunter2'', None)"
  using rotate_encrypts_plaintext [of "''hunter2''" sampleEnv]
  by (simp add: sampleEnv_def isEncrypted_def pgpHeader_def)

text \<open>
  C10. The marker anywhere in a scalar makes it count as encrypted: a string with the
  armour header at any position, after any prefix \<open>p\<close>, is returned unchanged by the
  encrypt action, at the leaf and through \<open>ProcessValues\<close>, with no call of the backend,
  and the decrypt action hands it to the backend.
\<close>

theorem marker_anywhere_counts_as_encrypted:
  "doString e (p @ pgpHeader @ q) Encrypt = (p @ pgpHeader @ q, None)
   \<and> ProcessValues e (VStr (p @ pgpHeader @ q)) Encrypt = Ret (VStr (p @ pgpHeader @ q)) None
   \<and> doString e (p @ pgpHeader @ q) Decrypt =
       (case DecryptSecret e (p @ pgpHeader @ q) of
          (plainText, Some err) \<Rightarrow>
            (p @ pgpHeader @ q, Some (''error decrypting value: '' @ err))
        | (plainText, None) \<Rightarrow> (plainText, None))"
proof -
  have "isEncrypted (p @ pgpHeader @ q)"
    unfolding isEncrypted_iff by blast
  then show ?thesis
    by (auto simp: doString_def ProcessValues_def decryptVal_def action_defs
             split: prod.splits option.splits)
qed

section \<open>The dispatcher on concrete documents\<close>

lemmas run_defs =
  PerformAction_def validAction_def action_defs GetValueFromPath_def ProcessValues_def
  doMap_def doSlice_def doString_def decryptVal_def keyInfo_def isEncrypted_def pgpHeader_def
  sampleEnv_def FormatBuffer_def slsOf_def header_def

text \<open>
  C4. Structural preservation fails on a mapping that holds a null: \<open>doMap\<close> returns at
  the nil value with what it has built so far. With \<open>secure_vars: {user: null, password:
  hunter2}\<close> and the encrypt action the committed \<open>secure_vars\<close> is empty when \<open>user\<close>
  is visited first and lacks \<open>user\<close> when it is visited last. A value of another scalar
  kind is dropped as well: a mapping loses the key, a sequence gets shorter.
\<close>

theorem null_in_mapping_loses_keys:
  "PerformAction sampleEnv docNullFirst Encrypt
     = Ret (docNullFirst\<lparr>Values := [(''secure_vars'', VMap [])]\<rparr>, header @ ''yaml'') None
   \<and> PerformAction sampleEnv docNullLast Encrypt
     = Ret (docNullLast\<lparr>Values :=
              [(''secure_vars'', VMap [(''password'', VStr (pgpHeader @ ''hunter2''))])]\<rparr>,
            header @ ''yaml'') None
   \<and> ProcessValues sampleEnv (VMap [(''port'', VInt 8080), (''password'', VStr ''hunter2'')])
        Encrypt
     = Ret (VMap [(''password'', VStr (pgpHeader @ ''hunter2''))]) None
   \<and> ProcessValues sampleEnv (VSlice [VInt 8080, VStr ''hunter2'']) Encrypt
     = Ret (VSlice [VStr (pgpHeader @ ''hunter2'')]) None"
  by (simp add: run_defs docNullFirst_def docNullLast_def)

text \<open>
  C5. The recursion is not fail-fast inside a mapping: \<open>doMap\<close> assigns \<open>err\<close> in every
  iteration and goes on, so the error of one entry is overwritten by the nil of the next.
  With \<open>secure_vars: {a: <corrupt ciphertext>, b: <ciphertext>}\<close>, visited in this order,
  the decrypt action fails on the leaf \<open>a\<close>, and yet \<open>PerformAction\<close> returns no error
  and commits the tree, \<open>a\<close> as it was and \<open>b\<close> decrypted. The same two leaves in a
  sequence do stop \<open>doSlice\<close> at the first.
\<close>

theorem mapping_swallows_leaf_error:
  "doString sampleEnv (pgpHeader @ ''bad'') Decrypt
     = (pgpHeader @ ''bad'', Some ''error decrypting value: corrupt'')
   \<and> PerformAction sampleEnv docTwoSecrets Decrypt
     = Ret (docTwoSecrets\<lparr>Values :=
              [(''secure_vars'',
                VMap [(''a'', VStr (pgpHeader @ ''bad'')), (''b'', VStr ''ok'')])]\<rparr>,
            header @ ''yaml'') None
   \<and> ProcessValues sampleEnv
        (VSlice [VStr (pgpHeader @ ''bad''), VStr (pgpHeader @ ''ok'')]) Decrypt
     = Ret (VSlice [VStr (pgpHeader @ ''bad''), VStr (pgpHeader @ ''ok'')])
         (Some ''error decrypting value: corrupt'')"
  by (simp add: run_defs docTwoSecrets_def)

section \<open>The loop over the top-level keys\<close>

lemma Split_no_sep: "sep \<notin> set k \<Longrightarrow> Split k sep = [k]"
  by (induction k) auto

lemma GetValueFromPath_key:
  "CHR '':'' \<notin> set k \<Longrightarrow>
   GetValueFromPath s k = (case map_of (Values s) k of None \<Rightarrow> VNil | Some v \<Rightarrow> v)"
  by (simp add: GetValueFromPath_def Split_no_sep)

lemma PerformActionLoop_scoped:
  assumes "EncryptionPath s = x" and "x \<noteq> []"
    and "PerformActionLoop e s action stuff ks = Ret stuff' None"
  shows "map_of stuff' k =
           (if k \<in> set ks then
              (if k = x then
                 (case ProcessValues e (GetValueFromPath s x) action of
                    Panic \<Rightarrow> None | Ret r err \<Rightarrow> Some r)
               else Some (GetValueFromPath s k))
            else map_of stuff k)
         \<and> (x \<in> set ks \<longrightarrow> (\<exists>r. ProcessValues e (GetValueFromPath s x) action = Ret r None))"
  using assms(3)
proof (induction ks arbitrary: stuff)
  case Nil
  then show ?case by simp
next
  case (Cons key rest)
  show ?case
  proof (cases "key = x")
    case True
    from Cons.prems True assms(1,2) obtain r where
      r: "ProcessValues e (GetValueFromPath s x) action = Ret r None"
      and loop: "PerformActionLoop e s action (AList.update x r stuff) rest = Ret stuff' None"
      by (auto split: go.splits option.splits)
    from Cons.IH [OF loop] r True show ?thesis
      by (auto simp: update_conv')
  next
    case False
    from Cons.prems False assms(1,2) have
      loop: "PerformActionLoop e s action (AList.update key (GetValueFromPath s key) stuff) rest
               = Ret stuff' None"
      by auto
    from Cons.IH [OF loop] False show ?thesis
      by (auto simp: update_conv')
  qed
qed

lemma PerformActionLoop_keys:
  "PerformActionLoop e s action stuff ks = Ret stuff' None \<Longrightarrow>
   fst ` set stuff' = fst ` set stuff \<union> set ks"
proof (induction ks arbitrary: stuff)
  case Nil
  then show ?case by simp
next
  case (Cons key rest)
  from Cons.prems obtain v where
    "PerformActionLoop e s action (AList.update key v stuff) rest = Ret stuff' None"
    by (auto split: if_splits go.splits option.splits)
  from Cons.IH [OF this] show ?case
    by (auto simp: dom_update)
qed

text \<open>
  C6, as stated, fails on a top-level key with a colon: \<open>PerformAction\<close> fetches the value
  of every key through \<open>GetValueFromPath\<close>, which splits the key at its colons, so the
  value of \<open>url:port\<close>, outside the scope \<open>secure_vars\<close>, comes out as nil.
\<close>

theorem scope_changes_key_with_colon:
  "map_of (Values docColonKey) ''url:port'' = Some (VStr ''8080'')
   \<and> PerformAction sampleEnv docColonKey Encrypt
     = Ret (docColonKey\<lparr>Values :=
              [(''url:port'', VNil),
               (''secure_vars'', VMap [(''password'', VStr (pgpHeader @ ''hunter2''))])]\<rparr>,
            header @ ''yaml'') None"
  by (simp add: run_defs docColonKey_def)

text \<open>
  C6, amended. For a document whose top-level keys hold no colon and a top-level-element
  scope \<open>x\<close>, a run of \<open>PerformAction\<close> that returns no error gives an output document
  with the same keys, in which every key other than \<open>x\<close> has the value it had, and \<open>x\<close>
  has what \<open>ProcessValues\<close> made of its value. The output document is \<open>Values\<close>, and
  \<open>KeyMap\<close> for the validate action.
\<close>

theorem scope_passes_other_keys_through:
  assumes "EncryptionPath s = x" and "x \<noteq> []"
    and "\<forall>k \<in> fst ` set (Values s). CHR '':'' \<notin> set k"
    and "PerformAction e s action = Ret (s', buf) None"
    and "validAction action"
    and "out = (if action \<noteq> Validate then Values s' else KeyMap s')"
  shows "fst ` set out = fst ` set (Values s)
       \<and> (\<forall>k. k \<noteq> x \<longrightarrow> map_of out k = map_of (Values s) k)
       \<and> (\<forall>v. map_of (Values s) x = Some v \<longrightarrow>
             (\<exists>r. ProcessValues e v action = Ret r None \<and> map_of out x = Some r))"
proof -
  from assms(4,5) obtain stuff where
    loop: "PerformActionLoop e s action [] (map fst (Values s)) = Ret stuff None"
    and s': "s' = (if action \<noteq> Validate then s\<lparr>Values := stuff\<rparr> else s\<lparr>KeyMap := stuff\<rparr>)"
    by (auto simp: PerformAction_def Let_def split: go.splits option.splits prod.splits if_splits)
  have out: "out = stuff"
    using assms(6) s' by simp
  note inv = PerformActionLoop_scoped [OF assms(1,2) loop]
  have keys: "fst ` set out = fst ` set (Values s)"
    using PerformActionLoop_keys [OF loop] out by simp
  have others: "map_of out k = map_of (Values s) k" if "k \<noteq> x" for k
  proof (cases "k \<in> fst ` set (Values s)")
    case True
    then obtain v where v: "map_of (Values s) k = Some v"
      by (metis domD dom_map_of_conv_image_fst)
    from True assms(3) have "CHR '':'' \<notin> set k" by blast
    then have "GetValueFromPath s k = v"
      using v by (simp add: GetValueFromPath_key)
    with inv [of k] that True v out show ?thesis by simp
  next
    case False
    then have "map_of (Values s) k = None"
      by (simp add: map_of_eq_None_iff)
    with inv [of k] False out show ?thesis by simp
  qed
  have scoped: "\<exists>r. ProcessValues e v action = Ret r None \<and> map_of out x = Some r"
    if v: "map_of (Values s) x = Some v" for v
  proof -
    from v have mem: "x \<in> fst ` set (Values s)"
      by (metis domI dom_map_of_conv_image_fst)
    with assms(3) have "CHR '':'' \<notin> set x" by blast
    then have g: "GetValueFromPath s x = v"
      using v by (simp add: GetValueFromPath_key)
    from inv [of x] mem obtain r where "ProcessValues e (GetValueFromPath s x) action = Ret r None"
      by auto
    with inv [of x] mem g out show ?thesis by simp
  qed
  from keys others scoped show ?thesis by blast
qed

theorem scope_passes_other_keys_through_witness:
  "PerformAction sampleEnv docScoped Encrypt
     = Ret (docScoped\<lparr>Values := outScoped\<rparr>, header @ ''yaml'') None
   \<and> fst ` set outScoped = fst ` set (Values docScoped)
   \<and> map_of outScoped ''roles'' = map_of (Values docScoped) ''roles''
   \<and> map_of outScoped ''secure_vars''
       = Some (VMap [(''password'', VStr (pgpHeader @ ''hunter2''))])"
  using scope_passes_other_keys_through
          [of docScoped "''secure_vars''" sampleEnv Encrypt "docScoped\<lparr>Values := outScoped\<rparr>"
              "header @ ''yaml''" outScoped]
  by (simp add: run_defs docScoped_def outScoped_def)

text \<open>
  C8, as stated, fails: with the validate action over the whole document, a plaintext
  scalar at a top-level key does abort the pass. \<open>keyInfo\<close> returns its error for the
  leaf, \<open>PerformAction\<close> returns it, and no key map is committed.
\<close>

theorem validate_whole_document_aborts:
  "PerformAction sampleEnv docPlainLeaf Validate
     = Ret (docPlainLeaf, []) (Some ''value is not encrypted'')"
  by (simp add: run_defs docPlainLeaf_def)

lemma ProcessValues_validate_plain:
  "\<not> isEncrypted x \<Longrightarrow>
   ProcessValues e (VStr x) Validate = Ret (VStr x) (Some ''value is not encrypted'')"
  by (simp add: ProcessValues_def doString_def keyInfo_def action_defs)

lemma PerformActionLoop_plain_leaf:
  assumes "k \<in> set ks" and "CHR '':'' \<notin> set k" and "map_of (Values s) k = Some (VStr x)"
    and "\<not> isEncrypted x" and "EncryptionPath s = [] \<or> EncryptionPath s = k"
  shows "PerformActionLoop e s Validate stuff ks \<noteq> Ret r None"
  using assms(1)
proof (induction ks arbitrary: stuff)
  case Nil
  then show ?case by simp
next
  case (Cons key rest)
  have here: "ProcessValues e (GetValueFromPath s k) Validate
                = Ret (VStr x) (Some ''value is not encrypted'')"
    using assms by (simp add: GetValueFromPath_key ProcessValues_validate_plain)
  show ?case
  proof (cases "key = k")
    case True
    with here assms(5) show ?thesis by auto
  next
    case False
    with Cons.prems have "k \<in> set rest" by simp
    then have IH: "\<And>stuff. PerformActionLoop e s Validate stuff rest \<noteq> Ret r None"
      by (rule Cons.IH)
    show ?thesis
      using IH by (auto split: go.splits option.splits)
  qed
qed

text \<open>
  C8, amended. The validate strategy returns the error \<open>value is not encrypted\<close> for
  every scalar without the marker, whatever the mode. In whole-document mode, and in
  whole-scope mode on the key in scope, a document with such a scalar as the value of a
  top-level key (a key without a colon) does not complete the pass: \<open>PerformAction\<close>
  panics or returns an error with the object unchanged, so no key map is committed.
\<close>

theorem validate_plaintext_top_level_aborts:
  assumes "(k, VStr x) \<in> set (Values s)" and "distinct (map fst (Values s))"
    and "CHR '':'' \<notin> set k" and "\<not> isEncrypted x"
    and "EncryptionPath s = [] \<or> EncryptionPath s = k"
  shows "doString e x Validate = (x, Some ''value is not encrypted'')
       \<and> (PerformAction e s Validate = Panic
          \<or> (\<exists>err. PerformAction e s Validate = Ret (s, []) (Some err)))"
proof -
  have m: "map_of (Values s) k = Some (VStr x)"
    using assms(1,2) by simp
  have k: "k \<in> set (map fst (Values s))"
    using assms(1) by force
  have "PerformActionLoop e s Validate [] (map fst (Values s)) \<noteq> Ret r' None" for r'
    using PerformActionLoop_plain_leaf [OF k assms(3) m assms(4) assms(5)] .
  then have "PerformAction e s Validate = Panic
          \<or> (\<exists>err. PerformAction e s Validate = Ret (s, []) (Some err))"
    by (auto simp: PerformAction_def validAction_def split: go.splits option.splits)
  moreover have "doString e x Validate = (x, Some ''value is not encrypted'')"
    using assms(4) by (simp add: doString_def keyInfo_def action_defs)
  ultimately show ?thesis by simp
qed

theorem validate_plaintext_top_level_aborts_witness:
  "doString sampleEnv ''admin'' Validate = (''admin'', Some ''value is not encrypted'')
   \<and> (PerformAction sampleEnv docPlainLeaf Validate = Panic
      \<or> (\<exists>err. PerformAction sampleEnv docPlainLeaf Validate = Ret (docPlainLeaf, []) (Some err)))"
  using validate_plaintext_top_level_aborts [of "''user''" "''admin''" docPlainLeaf sampleEnv]
  by (simp add: docPlainLeaf_def slsOf_def isEncrypted_def pgpHeader_def)

section \<open>Reading\<close>

text \<open>
  C2. A document with an \<open>include:\<close> line is not rejected: \<open>ReadBytes\<close> only sets
  \<open>IsInclude\<close> when the scan finds the line, and then hands the bytes to the decoder all
  the same. For the document \<open>includeDoc\<close>, and any decoder and object, the scan reports
  the include, and the result of \<open>ReadBytes\<close> is the decoder's: its values are stored
  and its error, or none, is returned. For every buffer the values and the error of
  \<open>ReadBytes\<close> are the decoder's.
\<close>

theorem include_line_is_parsed_anyway:
  "ScanForIncludes e s includeDoc
     = Some (shortFileName e (FilePath s) @ '' contains include directives'')
   \<and> ReadBytes e s includeDoc
     = (s\<lparr>Values := fst (Unmarshal e includeDoc []), IsInclude := True\<rparr>,
        snd (Unmarshal e includeDoc []))
   \<and> snd (ReadBytes e s buf) = snd (Unmarshal e buf [])
   \<and> Values (fst (ReadBytes e s buf)) = fst (Unmarshal e buf [])"
proof -
  have scan: "ScanForIncludes e s' includeDoc
     = Some (shortFileName e (FilePath s') @ '' contains include directives'')" for s'
    by (simp add: ScanForIncludes_def includeDoc_def rawLines_def MaxScanTokenSize_def dropCR_def)
  have rb: "ReadBytes e s includeDoc
     = (s\<lparr>Values := fst (Unmarshal e includeDoc []), IsInclude := True\<rparr>,
        snd (Unmarshal e includeDoc []))"
    by (simp add: ReadBytes_def scan split: prod.splits)
  have gen: "snd (ReadBytes e s buf) = snd (Unmarshal e buf [])
     \<and> Values (fst (ReadBytes e s buf)) = fst (Unmarshal e buf [])"
    by (simp add: ReadBytes_def Let_def split: prod.splits option.splits)
  from scan rb gen show ?thesis by simp
qed

subsection \<open>Names in the file system\<close>

lemma Split_pieces: "w \<in> set (Split s sep) \<Longrightarrow> sep \<notin> set w"
proof (induction s arbitrary: w)
  case Nil
  then show ?case by simp
next
  case (Cons c s)
  show ?case
  proof (cases "c = sep")
    case True
    with Cons show ?thesis by auto
  next
    case False
    with Cons show ?thesis
      by (cases "Split s sep") auto
  qed
qed

lemma Split_append_sep: "sep \<notin> set w \<Longrightarrow> Split (w @ sep # r) sep = w # Split r sep"
  by (induction w) auto

lemma Split_nameOf:
  assumes "\<forall>w \<in> set ws. CHR ''/'' \<notin> set w" and "ws \<noteq> []"
  shows "Split (concat (map (\<lambda>c. CHR ''/'' # c) ws)) CHR ''/'' = [] # ws"
  using assms
proof (induction ws)
  case Nil
  then show ?case by simp
next
  case (Cons w ws)
  show ?case
  proof (cases "ws = []")
    case True
    with Cons.prems show ?thesis by (simp add: Split_no_sep)
  next
    case False
    with Cons have IH: "Split (concat (map (\<lambda>c. CHR ''/'' # c) ws)) CHR ''/'' = [] # ws"
      by simp
    from False obtain v vs where ws: "ws = v # vs" by (cases ws) auto
    have "Split (w @ concat (map (\<lambda>c. CHR ''/'' # c) ws)) CHR ''/'' = w # ws"
      using IH Cons.prems ws by (simp add: Split_append_sep)
    then show ?thesis by simp
  qed
qed

lemma components_nameOf:
  assumes "\<forall>w \<in> set ws. w \<noteq> [] \<and> CHR ''/'' \<notin> set w"
  shows "components (nameOf ws) = ws"
proof (cases "ws = []")
  case True
  then show ?thesis by (simp add: components_def nameOf_def)
next
  case False
  have "filter (\<lambda>c. c \<noteq> []) ws = ws"
    using assms by (simp add: filter_id_conv)
  with False assms show ?thesis
    by (simp add: components_def nameOf_def Split_nameOf)
qed

lemma components_pieces: "w \<in> set (components q) \<Longrightarrow> w \<noteq> [] \<and> CHR ''/'' \<notin> set w"
  by (auto simp: components_def dest: Split_pieces)

lemma not_above_itself:
  assumes "components q \<noteq> []"
  shows "q \<notin> set (selfAndAbove (parentOf q))"
proof
  assume "q \<in> set (selfAndAbove (parentOf q))"
  have wf: "\<forall>w \<in> set (butlast (components q)). w \<noteq> [] \<and> CHR ''/'' \<notin> set w"
  proof
    fix w
    assume "w \<in> set (butlast (components q))"
    then have "w \<in> set (components q)" by (rule in_set_butlastD)
    then show "w \<noteq> [] \<and> CHR ''/'' \<notin> set w" by (rule components_pieces)
  qed
  have pcs: "components (parentOf q) = butlast (components q)"
    unfolding parentOf_def using wf by (rule components_nameOf)
  from \<open>q \<in> set (selfAndAbove (parentOf q))\<close> obtain ws where
    q: "q = nameOf ws" and sub: "set ws \<subseteq> set (butlast (components q))"
    and len: "length ws < length (components q)"
  proof (cases "q = parentOf q")
    case True
    show ?thesis
      by (rule that [of "butlast (components q)"])
         (use True assms in \<open>auto simp: parentOf_def\<close>)
  next
    case False
    with \<open>q \<in> set (selfAndAbove (parentOf q))\<close> obtain n where
      n: "n < length (butlast (components q))" and "q = nameOf (take n (butlast (components q)))"
      by (auto simp: selfAndAbove_def pcs)
    show ?thesis
      by (rule that [of "take n (butlast (components q))"])
         (use n \<open>q = nameOf _\<close> in \<open>auto dest: in_set_takeD\<close>)
  qed
  from sub wf have "\<forall>w \<in> set ws. w \<noteq> [] \<and> CHR ''/'' \<notin> set w" by blast
  then have "components (nameOf ws) = ws" by (rule components_nameOf)
  with q have "components q = ws" by simp
  with len show False by simp
qed

lemma parent_in_selfAndAbove: "x \<in> set (selfAndAbove x)"
  by (simp add: selfAndAbove_def)


lemma ScanForIncludes_empty: "ScanForIncludes e s [] = None"
  by (simp add: ScanForIncludes_def rawLines_def)

lemma ReadBytes_empty:
  "Unmarshal e [] [] = ([], None) \<Longrightarrow> ReadBytes e s [] = (s\<lparr>Values := []\<rparr>, None)"
  by (simp add: ReadBytes_def ScanForIncludes_empty)

text \<open>
  C9. A path that does not exist is created rather than reported. For a path that is not
  empty and not the standard output's, that \<open>os.Stat\<close> reports as not existing, with
  \<open>filepath.Dir\<close> naming the directory that holds it and \<open>filepath.Abs\<close> returning a
  path to the same file (relative paths included), and with a decoder that takes the empty
  input as the empty document: the only errors the read returns are those of the calls
  \<open>os.MkdirAll\<close>, \<open>os.OpenFile\<close>, \<open>filepath.Abs\<close> and \<open>ioutil.ReadFile\<close>; and
  when these calls succeed the read returns the empty document with no error, an empty
  file is at the path, the directory that holds it is there, made with every directory above
  it when it was missing, and no other file has changed.
\<close>

theorem missing_file_is_created_rather_than_failing:
  assumes path: "FilePath s \<noteq> []" "FilePath s \<noteq> Stdout_Name"
    and q: "q = os_resolve os (FilePath s)"
    and missing: "statNotExist os fs (FilePath s)"
    and dir: "os_resolve os (os_Dir os (FilePath s)) = parentOf q"
    and abs: "\<forall>full. os_Abs os (FilePath s) = (full, None) \<longrightarrow> os_resolve os full = q"
    and empty: "Unmarshal e [] [] = ([], None)"
    and R: "R = ReadSlsFile e os fs s"
  shows "(snd R = None \<or> snd R = os_MkdirAll os \<or> snd R = os_OpenFile os
          \<or> snd R = snd (os_Abs os (FilePath s)) \<or> snd R = os_ReadFile os)
       \<and> (os_MkdirAll os = None \<and> os_OpenFile os = None
          \<and> snd (os_Abs os (FilePath s)) = None \<and> os_ReadFile os = None \<longrightarrow>
            R = ((writeFile (makeDirs fs (parentOf q)) q [], s\<lparr>Values := []\<rparr>), None)
            \<and> files (fst (fst R)) q = Some []
            \<and> isDir (fst (fst R)) (parentOf q)
            \<and> (\<not> isDir fs (parentOf q) \<longrightarrow>
                 set (selfAndAbove (parentOf q)) \<subseteq> dirs (fst (fst R)))
            \<and> (\<forall>f. f \<noteq> q \<longrightarrow> files (fst (fst R)) f = files fs f))"
proof -
  from missing q have nofile: "\<not> isFile fs q" and nodir: "\<not> isDir fs q"
    and clear: "\<not> list_ex (isFile fs) (selfAndAbove (parentOf q))"
    by (simp_all add: statNotExist_def Let_def)
  from nodir have comps: "components q \<noteq> []" by (simp add: isDir_def)
  have mk: "MkdirAll os fs (os_Dir os (FilePath s)) =
              (if isDir fs (parentOf q) then (fs, None)
               else (case os_MkdirAll os of
                       Some err \<Rightarrow> (fs, Some err)
                     | None \<Rightarrow> (makeDirs fs (parentOf q), None)))"
    using clear by (simp add: MkdirAll_def dir)
  define fs1 where "fs1 = makeDirs fs (parentOf q)"
  have files1: "files fs1 = files fs"
    by (simp add: fs1_def makeDirs_def)
  have dirs1: "isDir fs1 d \<longleftrightarrow> isDir fs d \<or> (\<not> isDir fs (parentOf q) \<and> d \<in> set (selfAndAbove (parentOf q)))" for d
    by (auto simp: fs1_def makeDirs_def isDir_def)
  have parent1: "isDir fs1 (parentOf q)"
    by (auto simp: dirs1 parent_in_selfAndAbove)
  have q1: "\<not> isDir fs1 q"
    using nodir not_above_itself [OF comps] by (simp add: dirs1)
  have op: "OpenFile os fs1 (FilePath s) =
              (case os_OpenFile os of
                 Some err \<Rightarrow> (fs1, Some err)
               | None \<Rightarrow> (writeFile fs1 q [], None))"
    using nofile q1 parent1 q by (simp add: OpenFile_def isFile_def files1 split: option.splits)
  have mk1: "MkdirAll os fs (os_Dir os (FilePath s)) =
               (if isDir fs (parentOf q) then (fs1, None)
                else (case os_MkdirAll os of
                        Some err \<Rightarrow> (fs, Some err)
                      | None \<Rightarrow> (fs1, None)))"
    by (auto simp: mk fs1_def makeDirs_def split: option.splits)
  define fs2 where "fs2 = writeFile fs1 q []"
  have read: "ReadFile os fs2 full =
                (case os_ReadFile os of Some err \<Rightarrow> ([], Some err) | None \<Rightarrow> ([], None))"
    if "os_Abs os (FilePath s) = (full, None)" for full
    using abs that by (simp add: ReadFile_def fs2_def writeFile_def split: option.splits)
  have rb: "ReadBytes e s [] = (s\<lparr>Values := []\<rparr>, None)"
    using empty by (rule ReadBytes_empty)
  have mkfail: "R = ((fs, s), Some err)"
    if "MkdirAll os fs (os_Dir os (FilePath s)) = (fs, Some err)" for err
    using path missing that by (simp add: R ReadSlsFile_def)
  have mkok: "R =
      (case os_OpenFile os of
         Some err \<Rightarrow> ((fs1, s), Some err)
       | None \<Rightarrow>
           (case os_Abs os (FilePath s) of
              (full, Some err) \<Rightarrow> ((fs2, s), Some err)
            | (full, None) \<Rightarrow>
                (case os_ReadFile os of
                   Some err \<Rightarrow> ((fs2, s), Some err)
                 | None \<Rightarrow> ((fs2, s\<lparr>Values := []\<rparr>), None))))"
    if "MkdirAll os fs (os_Dir os (FilePath s)) = (fs1, None)"
  proof (cases "os_Abs os (FilePath s)")
    case (Pair full aerr)
    show ?thesis
    proof (cases aerr)
      case None
      with Pair have "ReadFile os fs2 full =
          (case os_ReadFile os of Some err \<Rightarrow> ([], Some err) | None \<Rightarrow> ([], None))"
        by (simp add: read)
      with Pair None path missing that show ?thesis
        by (simp add: R ReadSlsFile_def op rb fs2_def split: option.splits)
    next
      case (Some err)
      with Pair path missing that show ?thesis
        by (simp add: R ReadSlsFile_def op fs2_def split: option.splits)
    qed
  qed
  have sources: "snd R = None \<or> snd R = os_MkdirAll os \<or> snd R = os_OpenFile os
          \<or> snd R = snd (os_Abs os (FilePath s)) \<or> snd R = os_ReadFile os"
  proof (cases "MkdirAll os fs (os_Dir os (FilePath s)) = (fs1, None)")
    case True
    from mkok [OF True] show ?thesis
      by (cases "os_Abs os (FilePath s)") (auto split: option.splits)
  next
    case False
    then obtain err where "os_MkdirAll os = Some err"
      and "MkdirAll os fs (os_Dir os (FilePath s)) = (fs, Some err)"
      by (auto simp: mk1 split: if_splits option.splits)
    with mkfail show ?thesis by simp
  qed
  have success: "R = ((fs2, s\<lparr>Values := []\<rparr>), None)"
    if "os_MkdirAll os = None" "os_OpenFile os = None"
       "snd (os_Abs os (FilePath s)) = None" "os_ReadFile os = None"
  proof -
    from that(1) have "MkdirAll os fs (os_Dir os (FilePath s)) = (fs1, None)"
      by (simp add: mk1)
    from mkok [OF this] that show ?thesis
      by (cases "os_Abs os (FilePath s)") auto
  qed
  have f2: "files fs2 q = Some []"
    by (simp add: fs2_def writeFile_def)
  have others: "files fs2 f = files fs f" if "f \<noteq> q" for f
    using that by (simp add: fs2_def writeFile_def files1)
  have d2: "isDir fs2 d = isDir fs1 d" for d
    by (simp add: fs2_def writeFile_def isDir_def)
  have made: "set (selfAndAbove (parentOf q)) \<subseteq> dirs fs2" if "\<not> isDir fs (parentOf q)"
    using that by (auto simp: fs2_def writeFile_def fs1_def makeDirs_def)
  from sources success f2 others d2 parent1 made show ?thesis
    by (simp add: fs2_def fs1_def)
qed

lemma pillar_names:
  "components ''/srv/pillar/env/prod/new.sls'' = [''srv'', ''pillar'', ''env'', ''prod'', ''new.sls'']"
  "parentOf ''/srv/pillar/env/prod/new.sls'' = ''/srv/pillar/env/prod''"
  "selfAndAbove ''/srv/pillar/env/prod''
     = [''/srv/pillar/env/prod'', ''/'', ''/srv'', ''/srv/pillar'', ''/srv/pillar/env'']"
  by (simp_all add: components_def parentOf_def nameOf_def selfAndAbove_def)

theorem missing_file_is_created_rather_than_failing_witness:
  "ReadSlsFile sampleEnv osPillar fsPillar slsNew
     = ((writeFile (makeDirs fsPillar ''/srv/pillar/env/prod'')
           ''/srv/pillar/env/prod/new.sls'' [], slsNew), None)
   \<and> files (fst (fst (ReadSlsFile sampleEnv osPillar fsPillar slsNew)))
        ''/srv/pillar/env/prod/new.sls'' = Some []
   \<and> ''/srv/pillar/env'' \<in> dirs (fst (fst (ReadSlsFile sampleEnv osPillar fsPillar slsNew)))
   \<and> ''/srv/pillar/env/prod'' \<in> dirs (fst (fst (ReadSlsFile sampleEnv osPillar fsPillar slsNew)))
   \<and> files (fst (fst (ReadSlsFile sampleEnv osPillar fsPillar slsNew)))
        ''/srv/pillar/a.sls'' = Some ''old secrets''"
proof -
  have res: "os_resolve osPillar (FilePath slsNew) = ''/srv/pillar/env/prod/new.sls''"
    by (simp add: osPillar_def slsNew_def resolvePillar_def)
  have h1: "FilePath slsNew \<noteq> []" and h2: "FilePath slsNew \<noteq> Stdout_Name"
    by (simp_all add: slsNew_def Stdout_Name_def)
  have h3: "statNotExist osPillar fsPillar (FilePath slsNew)"
    by (simp add: statNotExist_def res pillar_names isFile_def isDir_def)
       (simp add: osPillar_def osOK_def fsPillar_def)
  have h4: "os_resolve osPillar (os_Dir osPillar (FilePath slsNew))
              = parentOf ''/srv/pillar/env/prod/new.sls''"
    by (simp add: pillar_names)
       (simp add: osPillar_def osOK_def slsNew_def dirOfPath_def resolvePillar_def)
  have h5: "\<forall>full. os_Abs osPillar (FilePath slsNew) = (full, None) \<longrightarrow>
              os_resolve osPillar full = ''/srv/pillar/env/prod/new.sls''"
    by (simp add: osPillar_def slsNew_def resolvePillar_def)
  have h6: "Unmarshal sampleEnv [] [] = ([], None)"
    by (simp add: sampleEnv_def)
  have calls: "os_MkdirAll osPillar = None \<and> os_OpenFile osPillar = None
          \<and> snd (os_Abs osPillar (FilePath slsNew)) = None \<and> os_ReadFile osPillar = None"
    by (simp add: osPillar_def osOK_def)
  have same: "slsNew\<lparr>Values := []\<rparr> = slsNew"
    by (simp add: slsNew_def)
  have nodir: "\<not> isDir fsPillar ''/srv/pillar/env/prod''"
    by (simp add: isDir_def components_def fsPillar_def)
  note inst = missing_file_is_created_rather_than_failing
               [OF h1 h2 res [symmetric] h3 h4 h5 h6 refl]
  from inst calls same have run: "ReadSlsFile sampleEnv osPillar fsPillar slsNew
      = ((writeFile (makeDirs fsPillar ''/srv/pillar/env/prod'')
            ''/srv/pillar/env/prod/new.sls'' [], slsNew), None)"
    by (simp add: pillar_names)
  show ?thesis
    unfolding run using nodir
    by (simp add: writeFile_def makeDirs_def pillar_names) (simp add: fsPillar_def)
qed

section \<open>Writing\<close>

lemma name_of_a_sls: "path_Split_name ''/srv/pillar/a.sls'' = ''a.sls''"
  by (simp add: path_Split_name_def)

text \<open>
  C3. A failed write can leave the destination truncated or partly overwritten:
  \<open>copyFile\<close> truncates the destination with \<open>os.Create\<close> before \<open>io.Copy\<close> runs. With
  the destination holding \<open>old secrets\<close> and an \<open>io.Copy\<close> that fails at once,
  \<open>atomicWrite\<close> returns the error and the destination is empty; with an \<open>io.Copy\<close> that
  fails after three bytes it holds the first three bytes of the new content.
\<close>

theorem failed_copy_truncates_destination:
  "files fsOld ''/srv/pillar/a.sls'' = Some ''old secrets''
   \<and> snd (atomicWrite (osOK\<lparr>os_Copy := Some (0, Some ''no space left on device'')\<rparr>) fsOld
            ''/srv/pillar/a.sls'' ''new secrets'')
      = (11, Some ''no space left on device'')
   \<and> files (fst (atomicWrite (osOK\<lparr>os_Copy := Some (0, Some ''no space left on device'')\<rparr>)
                   fsOld ''/srv/pillar/a.sls'' ''new secrets''))
        ''/srv/pillar/a.sls'' = Some []
   \<and> snd (atomicWrite (osOK\<lparr>os_Copy := Some (3, Some ''no space left on device'')\<rparr>) fsOld
            ''/srv/pillar/a.sls'' ''new secrets'')
      = (11, Some ''no space left on device'')
   \<and> files (fst (atomicWrite (osOK\<lparr>os_Copy := Some (3, Some ''no space left on device'')\<rparr>)
                   fsOld ''/srv/pillar/a.sls'' ''new secrets''))
        ''/srv/pillar/a.sls'' = Some ''new''"
  by (simp add: atomicWrite_def copyFile_def name_of_a_sls osOK_def fsOld_def writeFile_def
                orElse_def Let_def)

end
